theory Spec2Isabelle
  imports Main
begin

section \<open>Values of the program\<close>

text \<open>
  A Go \<open>error\<close> value. The only thing the program ever asks of an error is
  \<open>errors.Is(err, os.ErrNotExist)\<close> (line 183), so an error is its message together with
  the answer to that question.
\<close>

datatype error = ErrNotExist string | ErrOther string

fun is_not_exist :: "error \<Rightarrow> bool" where
  "is_not_exist (ErrNotExist m) = True"
| "is_not_exist (ErrOther m) = False"

text \<open>
  A \<open>time.Time\<close> without monotonic clock reading (file modification times carry none):
  seconds since January 1, year 1 00:00:00 UTC, and nanoseconds within the second.
  \<open>time.Time{}\<close> is the instant with both fields zero.
\<close>

datatype time = Instant (sec: int) (nsec: nat)

definition zero_time :: time where
  "zero_time = Instant 0 0"

definition IsZero :: "time \<Rightarrow> bool" where
  "IsZero t = (sec t = 0 \<and> nsec t = 0)"

definition After :: "time \<Rightarrow> time \<Rightarrow> bool" where
  "After t u = (sec t > sec u \<or> sec t = sec u \<and> nsec t > nsec u)"

text \<open>Line 51: \<^verbatim>\<open>func newer(local, remote time.Time) bool\<close>.\<close>

definition newer :: "time \<Rightarrow> time \<Rightarrow> bool" where
  "newer local remote = (IsZero remote \<or> After local remote)"

text \<open>
  The comparator in the words of the specification: a timestamp is a point on the time
  line (here in nanoseconds), the absent timestamp is the zero value, and the answer is
  yes when the remote one is absent or the local one lies strictly later.
\<close>

definition well_formed :: "time \<Rightarrow> bool" where
  "well_formed t = (nsec t < 1000000000)"

definition nanos :: "time \<Rightarrow> int" where
  "nanos t = sec t * 1000000000 + int (nsec t)"

definition isNewer_spec :: "time \<Rightarrow> time \<Rightarrow> bool" where
  "isNewer_spec localTime remoteTime = (remoteTime = zero_time \<or> nanos remoteTime < nanos localTime)"

section \<open>The host's path library\<close>

text \<open>
  The functions of Go's \<open>path/filepath\<close> that the program calls. They belong to the
  standard library and differ between hosts, so the program is modelled over a record
  of them. \<open>Rel\<close> gives the path that \<open>filepath.Rel\<close> returns, which is the empty
  string when it fails (line 169 discards its error).
\<close>

record filepath =
  Separator :: char
  Join :: "string list \<Rightarrow> string"
  Dir :: "string \<Rightarrow> string"
  Base :: "string \<Rightarrow> string"
  Rel :: "string \<Rightarrow> string \<Rightarrow> string"

text \<open>\<open>filepath.ToSlash\<close>: every separator of the host becomes a slash.\<close>

definition ToSlash :: "filepath \<Rightarrow> string \<Rightarrow> string" where
  "ToSlash fp path =
     (if Separator fp = CHR ''/'' then path
      else map (\<lambda>c. if c = Separator fp then CHR ''/'' else c) path)"

text \<open>\<open>strings.Split(s, sep)\<close> for a separator of one character.\<close>

fun Split :: "string \<Rightarrow> char \<Rightarrow> string list" where
  "Split [] sep = [[]]"
| "Split (c # cs) sep =
     (if c = sep then [] # Split cs sep
      else (case Split cs sep of x # xs \<Rightarrow> (c # x) # xs | [] \<Rightarrow> [[c]]))"

subsection \<open>The library on a Unix and on a Windows host\<close>

text \<open>
  Two instances of the record, after the library's documentation, for paths without a
  volume name (no drive letter, no UNC prefix, no colon). \<open>Clean\<close> works on the
  elements of a path: empty elements and \<open>.\<close> are dropped, \<open>..\<close> removes the element
  before it, at the start of a rooted path it is dropped and at the start of any other
  path it is kept; the elements are joined by the host's separator, a rooted path keeps
  its leading separator and an empty result is \<open>.\<close>. On Windows both the backslash
  and the slash separate elements, and the result is written with backslashes.
\<close>

fun elements :: "(char \<Rightarrow> bool) \<Rightarrow> string \<Rightarrow> string list" where
  "elements issep [] = [[]]"
| "elements issep (c # cs) =
     (if issep c then [] # elements issep cs
      else (case elements issep cs of x # xs \<Rightarrow> (c # x) # xs | [] \<Rightarrow> [[c]]))"

fun join_with :: "char \<Rightarrow> string list \<Rightarrow> string" where
  "join_with sep [] = []"
| "join_with sep [x] = x"
| "join_with sep (x # y # ys) = x @ sep # join_with sep (y # ys)"

definition clean_step :: "bool \<Rightarrow> string \<Rightarrow> string list \<Rightarrow> string list" where
  "clean_step rooted el out =
     (if el = [] \<or> el = ''.'' then out
      else if el = ''..'' then
        (case out of
           [] \<Rightarrow> if rooted then [] else [''..'']
         | prev # rest \<Rightarrow> if prev = ''..'' then ''..'' # out else rest)
      else el # out)"

definition clean_model :: "char \<Rightarrow> (char \<Rightarrow> bool) \<Rightarrow> string \<Rightarrow> string" where
  "clean_model sep issep path =
     (if path = [] then ''.''
      else
        let rooted = issep (hd path);
            body = join_with sep (rev (fold (clean_step rooted) (elements issep path) []))
        in if rooted then sep # body else if body = [] then ''.'' else body)"

definition join_model :: "char \<Rightarrow> (char \<Rightarrow> bool) \<Rightarrow> string list \<Rightarrow> string" where
  "join_model sep issep elems =
     (case filter (\<lambda>e. e \<noteq> []) elems of
        [] \<Rightarrow> []
      | es \<Rightarrow> clean_model sep issep (join_with sep es))"

definition dir_model :: "char \<Rightarrow> (char \<Rightarrow> bool) \<Rightarrow> string \<Rightarrow> string" where
  "dir_model sep issep path =
     clean_model sep issep (rev (dropWhile (\<lambda>c. \<not> issep c) (rev path)))"

definition base_model :: "char \<Rightarrow> (char \<Rightarrow> bool) \<Rightarrow> string \<Rightarrow> string" where
  "base_model sep issep path =
     (if path = [] then ''.''
      else
        let b = rev (takeWhile (\<lambda>c. \<not> issep c) (dropWhile issep (rev path)))
        in if b = [] then [sep] else b)"

fun strip_common :: "string list \<Rightarrow> string list \<Rightarrow> string list \<times> string list" where
  "strip_common (b # bs) (t # ts) = (if b = t then strip_common bs ts else (b # bs, t # ts))"
| "strip_common bs ts = (bs, ts)"

text \<open>
  \<open>Rel\<close> compares the elements of the two cleaned paths exactly (on Windows the library
  ignores their case).
\<close>

definition rel_model :: "char \<Rightarrow> (char \<Rightarrow> bool) \<Rightarrow> string \<Rightarrow> string \<Rightarrow> string" where
  "rel_model sep issep basepath targpath =
     (let base = clean_model sep issep basepath;
          targ = clean_model sep issep targpath
      in if targ = base then ''.''
         else if issep (hd base) \<noteq> issep (hd targ) then []
         else
           (case strip_common
                   (filter (\<lambda>e. e \<noteq> [] \<and> e \<noteq> ''.'') (elements issep base))
                   (filter (\<lambda>e. e \<noteq> [] \<and> e \<noteq> ''.'') (elements issep targ)) of
              (bs, ts) \<Rightarrow>
                if bs \<noteq> [] \<and> hd bs = ''..'' then []
                else join_with sep (map (\<lambda>b. ''..'') bs @ ts)))"

definition host_filepath :: "char \<Rightarrow> (char \<Rightarrow> bool) \<Rightarrow> filepath" where
  "host_filepath sep issep =
     \<lparr> Separator = sep, Join = join_model sep issep, Dir = dir_model sep issep,
       Base = base_model sep issep, Rel = rel_model sep issep \<rparr>"

definition unix_filepath :: filepath where
  "unix_filepath = host_filepath (CHR ''/'') (\<lambda>c. c = CHR ''/'')"

definition windows_filepath :: filepath where
  "windows_filepath = host_filepath (CHR 0x5C) (\<lambda>c. c = CHR 0x5C \<or> c = CHR ''/'')"

section \<open>Remote-Protocol Backend (lines 54 to 96)\<close>

text \<open>
  The methods of \<open>ftp.ServerConn\<close> that the program calls, over the state \<open>'c\<close> of
  the session and its server. Each returns its Go result and the state after the call.
\<close>

datatype Entry = Entry (Name: string) (Time: time)

record 'c ServerConn =
  List :: "string \<Rightarrow> 'c \<Rightarrow> (error + Entry list) \<times> 'c"
  MakeDir :: "string \<Rightarrow> 'c \<Rightarrow> error option \<times> 'c"
  Stor :: "string \<Rightarrow> string \<Rightarrow> 'c \<Rightarrow> error option \<times> 'c"
  Quit :: "'c \<Rightarrow> error option \<times> 'c"

text \<open>
  \<open>ftpTarget\<close>: the methods of its connection and its prefix. \<open>os.Open\<close> on a local
  file is the function \<open>opn\<close>, giving the error or the bytes that \<open>Stor\<close> will read.
\<close>

record 'c ftpTarget =
  conn :: "'c ServerConn"
  ftp_prefix :: string

text \<open>Lines 71 to 76: the scan of the listing for the base name.\<close>

fun scan_entries :: "string \<Rightarrow> Entry list \<Rightarrow> time \<times> error option" where
  "scan_entries base [] = (zero_time, Some (ErrNotExist ''file does not exist''))"
| "scan_entries base (e # entries) =
     (if Name e = base then (Time e, None) else scan_entries base entries)"

definition ftp_mtime ::
  "filepath \<Rightarrow> 'c ftpTarget \<Rightarrow> string \<Rightarrow> 'c \<Rightarrow> (time \<times> error option) \<times> 'c" where
  "ftp_mtime fp t rel c =
     (let remoteDir = ToSlash fp (Join fp [ftp_prefix t, Dir fp rel]) in
      case List (conn t) remoteDir c of
        (Inl err, c1) \<Rightarrow> ((zero_time, Some err), c1)
      | (Inr entries, c1) \<Rightarrow> (scan_entries (Base fp rel) entries, c1))"

text \<open>Lines 86 to 89: the loop over the segments; the result of \<open>MakeDir\<close> is dropped.\<close>

fun make_chain :: "filepath \<Rightarrow> 'c ServerConn \<Rightarrow> string \<Rightarrow> string list \<Rightarrow> 'c \<Rightarrow> 'c" where
  "make_chain fp C p [] c = c"
| "make_chain fp C p (d # dirs) c =
     (let p1 = Join fp [p, d] in make_chain fp C p1 dirs (snd (MakeDir C p1 c)))"

definition ftp_upload ::
  "filepath \<Rightarrow> (string \<Rightarrow> error + string) \<Rightarrow> 'c ftpTarget \<Rightarrow> string \<Rightarrow> string \<Rightarrow> 'c
     \<Rightarrow> error option \<times> 'c" where
  "ftp_upload fp opn t local rel c =
     (let remote = ToSlash fp (Join fp [ftp_prefix t, rel]);
          dir = Dir fp remote;
          c1 = (if dir \<noteq> [] \<and> dir \<noteq> ''.''
                then make_chain fp (conn t) [] (Split dir (CHR ''/'')) c else c)
      in case opn local of
           Inl err \<Rightarrow> (Some err, c1)
         | Inr src \<Rightarrow> Stor (conn t) remote src c1)"

definition ftp_close :: "'c ftpTarget \<Rightarrow> 'c \<Rightarrow> 'c" where
  "ftp_close t c = snd (Quit (conn t) c)"

section \<open>Mounted-Share Backend (lines 99 to 138)\<close>

record smbTarget =
  drive :: string
  unc :: string
  smb_prefix :: string

definition toRemote :: "filepath \<Rightarrow> smbTarget \<Rightarrow> string \<Rightarrow> string" where
  "toRemote fp t rel =
     (let rel1 = (if smb_prefix t \<noteq> [] then Join fp [smb_prefix t, rel] else rel)
      in Join fp [drive t, rel1])"

text \<open>
  The mounted share is the regular files on it, a map from path to content. How the
  operating system answers each call is a record of functions: the result of \<open>os.Stat\<close>,
  the error of \<open>os.MkdirAll\<close>, \<open>os.Create\<close> and \<open>os.Rename\<close>, and for \<open>io.Copy\<close>
  into the file at a path either success or the number of bytes written before the
  error. Closing the file written (\<open>out.Close()\<close>, lines 133 and 135) either
  succeeds or reports an error of writing that shows only now, with the number of
  bytes that reached the file. A call that fails leaves the files as they are, except
  that a failed copy has written its first bytes and a failed close has kept the first
  bytes only; \<open>os.MkdirAll\<close> makes directories only.
\<close>

record system =
  Stat :: "string \<Rightarrow> error + time"
  MkdirAll :: "string \<Rightarrow> error option"
  Create :: "string \<Rightarrow> error option"
  Copy :: "string \<Rightarrow> (nat \<times> error) option"
  Close_file :: "string \<Rightarrow> (nat \<times> error) option"
  Rename :: "string \<Rightarrow> string \<Rightarrow> error option"

type_synonym share = "string \<rightharpoonup> string"

definition smb_mtime ::
  "filepath \<Rightarrow> system \<Rightarrow> smbTarget \<Rightarrow> string \<Rightarrow> share \<Rightarrow> (time \<times> error option) \<times> share" where
  "smb_mtime fp sys t rel fs =
     (case Stat sys (toRemote fp t rel) of
        Inl err \<Rightarrow> ((zero_time, Some err), fs)
      | Inr mt \<Rightarrow> ((mt, None), fs))"

text \<open>The content of the file at a path once it is closed, given the bytes written to it.\<close>

definition closed :: "system \<Rightarrow> string \<Rightarrow> string \<Rightarrow> string" where
  "closed sys path written =
     (case Close_file sys path of
        None \<Rightarrow> written
      | Some (n, err) \<Rightarrow> take n written)"

text \<open>
  Lines 122 to 137. The results of \<open>os.MkdirAll\<close> (line 124) and of both calls of
  \<open>out.Close()\<close> are dropped; after a copy that reported no error the rename is made
  whatever the close reported.
\<close>

definition smb_upload ::
  "filepath \<Rightarrow> system \<Rightarrow> (string \<Rightarrow> error + string) \<Rightarrow> smbTarget \<Rightarrow> string \<Rightarrow> string
     \<Rightarrow> share \<Rightarrow> error option \<times> share" where
  "smb_upload fp sys opn t local rel fs =
     (let dst = toRemote fp t rel;
          made = MkdirAll sys (Dir fp dst)
      in case opn local of
           Inl err \<Rightarrow> (Some err, fs)
         | Inr src \<Rightarrow>
             let tmp = dst @ ''.tmp'' in
             (case Create sys tmp of
                Some err \<Rightarrow> (Some err, fs)
              | None \<Rightarrow>
                  (case Copy sys tmp of
                     Some (n, err) \<Rightarrow> (Some err, fs(tmp \<mapsto> closed sys tmp (take n src)))
                   | None \<Rightarrow>
                       (case Rename sys tmp dst of
                          Some err \<Rightarrow> (Some err, fs(tmp \<mapsto> closed sys tmp src))
                        | None \<Rightarrow> (None, (fs(tmp := None))(dst \<mapsto> closed sys tmp src))))))"

definition smb_close :: "smbTarget \<Rightarrow> share \<Rightarrow> share" where
  "smb_close t fs = fs"

section \<open>Sync Driver (lines 148 to 186)\<close>

text \<open>
  The three function values that \<open>main\<close> takes from the connected backend, over the
  state \<open>'s\<close> of the remote side.
\<close>

record 's backend =
  getMTime :: "string \<Rightarrow> 's \<Rightarrow> (time \<times> error option) \<times> 's"
  putFile :: "string \<Rightarrow> string \<Rightarrow> 's \<Rightarrow> error option \<times> 's"
  closeFn :: "'s \<Rightarrow> 's"

definition ftp_backend ::
  "filepath \<Rightarrow> (string \<Rightarrow> error + string) \<Rightarrow> 'c ftpTarget \<Rightarrow> 'c backend" where
  "ftp_backend fp opn ft =
     \<lparr> getMTime = ftp_mtime fp ft, putFile = ftp_upload fp opn ft, closeFn = ftp_close ft \<rparr>"

definition smb_backend ::
  "filepath \<Rightarrow> system \<Rightarrow> (string \<Rightarrow> error + string) \<Rightarrow> smbTarget \<Rightarrow> share backend" where
  "smb_backend fp sys opn st =
     \<lparr> getMTime = smb_mtime fp sys st, putFile = smb_upload fp sys opn st, closeFn = smb_close st \<rparr>"

text \<open>
  What a run does that can be seen from outside, in order: the calls of the three
  backend functions with what they returned, the lines written to standard output, and
  the message of \<open>log.Fatal\<close>.
\<close>

datatype event =
    Lookup string "time \<times> error option"
  | Stdout string
  | Upload string string "error option"
  | Close
  | Fatal error

text \<open>
  The local tree as \<open>filepath.WalkDir\<close> finds it. An entry that is not a directory
  carries its path and what \<open>os.Stat\<close> gives for it at line 172 (\<open>None\<close> when it
  fails, the file info is then nil); a directory carries its path, the error of reading
  it, and the entries read, in the order of the walk.
\<close>

datatype entry =
    File string "time option"
  | Directory string "error option" "entry list"

fun IsDir :: "entry \<Rightarrow> bool" where
  "IsDir (File p info) = False"
| "IsDir (Directory p rerr ents) = True"

text \<open>The callback returns nil, returns an error, or panics.\<close>

datatype result = NoError | Failed error | Panicked

text \<open>
  \<open>filepath.WalkDir\<close> for a callback that never returns \<open>fs.SkipDir\<close> or
  \<open>fs.SkipAll\<close> (the backends return errors of \<open>os\<close>, \<open>io\<close> and the FTP client
  only): the callback is called on each entry, a directory that could not be read is
  reported to it a second time, and the first result that is not nil ends the walk.
\<close>

fun walkDir :: "(string \<Rightarrow> entry option \<Rightarrow> error option \<Rightarrow> 'w \<Rightarrow> result \<times> 'w) \<Rightarrow> entry \<Rightarrow> 'w \<Rightarrow> result \<times> 'w"
  and walkEntries :: "(string \<Rightarrow> entry option \<Rightarrow> error option \<Rightarrow> 'w \<Rightarrow> result \<times> 'w) \<Rightarrow> entry list \<Rightarrow> 'w \<Rightarrow> result \<times> 'w"
where
  "walkDir fn (File p info) w = fn p (Some (File p info)) None w"
| "walkDir fn (Directory p rerr ents) w =
     (case fn p (Some (Directory p rerr ents)) None w of
        (NoError, w1) \<Rightarrow>
          (case rerr of
             None \<Rightarrow> walkEntries fn ents w1
           | Some err \<Rightarrow>
               (case fn p (Some (Directory p rerr ents)) (Some err) w1 of
                  (NoError, w2) \<Rightarrow> walkEntries fn ents w2
                | (r, w2) \<Rightarrow> (r, w2)))
      | (r, w1) \<Rightarrow> (r, w1))"
| "walkEntries fn [] w = (NoError, w)"
| "walkEntries fn (d # ds) w =
     (case walkDir fn d w of
        (NoError, w1) \<Rightarrow> walkEntries fn ds w1
      | (r, w1) \<Rightarrow> (r, w1))"

text \<open>\<open>lstat\<close> is what \<open>os.Lstat\<close> gives for the root: an error, or the root's entry.\<close>

definition WalkDir ::
  "string \<Rightarrow> error + entry \<Rightarrow> (string \<Rightarrow> entry option \<Rightarrow> error option \<Rightarrow> 'w \<Rightarrow> result \<times> 'w)
     \<Rightarrow> 'w \<Rightarrow> result \<times> 'w" where
  "WalkDir root lstat fn w =
     (case lstat of
        Inl err \<Rightarrow> fn root None (Some err) w
      | Inr d \<Rightarrow> walkDir fn d w)"

text \<open>The two lines the program prints: an upwards arrow and the path, and the final line.\<close>

definition progress_line :: "string \<Rightarrow> string" where
  "progress_line rel = [CHR 0xE2, CHR 0x86, CHR 0x91] @ '' '' @ rel @ [CHR 0x0A]"

definition complete_line :: string where
  "complete_line = [CHR 0xE2, CHR 0x9C, CHR 0x93] @ '' Sync complete'' @ [CHR 0x0A]"

text \<open>Lines 169 to 181: the callback on an entry that is not a directory.\<close>

definition visit ::
  "filepath \<Rightarrow> 's backend \<Rightarrow> string \<Rightarrow> string \<Rightarrow> time option \<Rightarrow> 's \<times> event list
     \<Rightarrow> result \<times> 's \<times> event list" where
  "visit fp B root path localInfo w =
     (case w of (s, tr) \<Rightarrow>
        let rel = ToSlash fp (Rel fp root path) in
        (case getMTime B rel s of (looked, s1) \<Rightarrow>
           let remoteTime = fst looked;
               tr1 = tr @ [Lookup rel looked]
           in (case localInfo of
                 None \<Rightarrow> (Panicked, s1, tr1)
               | Some localTime \<Rightarrow>
                   if newer localTime remoteTime then
                     (case putFile B path rel s1 of (put, s2) \<Rightarrow>
                        let tr2 = tr1 @ [Stdout (progress_line rel), Upload path rel put]
                        in (case put of
                              Some err \<Rightarrow> (Failed err, s2, tr2)
                            | None \<Rightarrow> (NoError, s2, tr2)))
                   else (NoError, s1, tr1))))"

text \<open>Lines 167 to 182: the callback given to \<open>filepath.WalkDir\<close>.\<close>

definition callback ::
  "filepath \<Rightarrow> 's backend \<Rightarrow> string \<Rightarrow> string \<Rightarrow> entry option \<Rightarrow> error option
     \<Rightarrow> 's \<times> event list \<Rightarrow> result \<times> 's \<times> event list" where
  "callback fp B root path d walkErr w =
     (case walkErr of
        Some err \<Rightarrow> (Failed err, w)
      | None \<Rightarrow>
          (case d of
             None \<Rightarrow> (Panicked, w)
           | Some (Directory p rerr ents) \<Rightarrow> (NoError, w)
           | Some (File p info) \<Rightarrow> visit fp B root path info w))"

text \<open>
  Lines 164 to 186: \<open>main\<close> from the deferred close on, for a backend that connected.
  It gives the exit status, the state of the remote side and the events. The deferred
  \<open>closeFn\<close> runs when \<open>main\<close> returns and when it panics (exit status 2);
  \<open>log.Fatal\<close> writes the error and calls \<open>os.Exit(1)\<close>, which runs no deferred call.
\<close>

definition sync ::
  "filepath \<Rightarrow> 's backend \<Rightarrow> string \<Rightarrow> error + entry \<Rightarrow> 's \<Rightarrow> nat \<times> 's \<times> event list" where
  "sync fp B root lstat s =
     (case WalkDir root lstat (callback fp B root) (s, []) of
        (Panicked, s1, tr) \<Rightarrow> (2, closeFn B s1, tr @ [Close])
      | (Failed err, s1, tr) \<Rightarrow>
          if \<not> is_not_exist err then (1, s1, tr @ [Fatal err])
          else (0, closeFn B s1, tr @ [Stdout complete_line, Close])
      | (NoError, s1, tr) \<Rightarrow> (0, closeFn B s1, tr @ [Stdout complete_line, Close]))"

section \<open>Properties of the events of a run\<close>

text \<open>An upload that returned an error.\<close>

fun failed_upload :: "event \<Rightarrow> bool" where
  "failed_upload (Upload p rel (Some e)) = True"
| "failed_upload ev = False"

text \<open>
  What a walk that returned \<open>r\<close> did: either no upload failed, or the walk returned
  the error of a failed upload, that upload is its last event and none failed before.
\<close>

definition stops_at_failure :: "result \<Rightarrow> event list \<Rightarrow> bool" where
  "stops_at_failure r new =
     ((\<forall>ev \<in> set new. \<not> failed_upload ev)
      \<or> (\<exists>pre p rel e. r = Failed e \<and> new = pre @ [Upload p rel (Some e)]
            \<and> (\<forall>ev \<in> set pre. \<not> failed_upload ev)))"

text \<open>
  In a list of events every line printed is the progress line of the upload attempt that
  directly follows it, and every upload attempt directly follows such a line.
\<close>

fun paired :: "event list \<Rightarrow> bool" where
  "paired [] = True"
| "paired (Stdout ln # Upload p rel put # rest) = (ln = progress_line rel \<and> paired rest)"
| "paired (Lookup rel looked # rest) = paired rest"
| "paired (ev # rest) = False"

text \<open>The lines printed, the lookups made and the uploads attempted, in order.\<close>

fun stdout_of :: "event list \<Rightarrow> string list" where
  "stdout_of [] = []"
| "stdout_of (Stdout ln # evs) = ln # stdout_of evs"
| "stdout_of (ev # evs) = stdout_of evs"

text \<open>The entries of a tree that are not directories, in the order of the walk.\<close>

fun files_of :: "entry \<Rightarrow> (string \<times> time option) list"
  and files_in :: "entry list \<Rightarrow> (string \<times> time option) list" where
  "files_of (File p info) = [(p, info)]"
| "files_of (Directory p rerr ents) = files_in ents"
| "files_in [] = []"
| "files_in (d # ds) = files_of d @ files_in ds"

fun lookups :: "event list \<Rightarrow> (string \<times> time \<times> error option) list" where
  "lookups [] = []"
| "lookups (Lookup rel looked # evs) = (rel, looked) # lookups evs"
| "lookups (ev # evs) = lookups evs"

fun uploads :: "event list \<Rightarrow> (string \<times> string) list" where
  "uploads [] = []"
| "uploads (Upload p rel put # evs) = (p, rel) # uploads evs"
| "uploads (ev # evs) = uploads evs"

text \<open>
  What the claim on a completed walk asks of the events of one file: the local stat
  succeeded, there is exactly one lookup, for the file's relative path, at most one
  upload, of that file, and no upload when the remote timestamp is a point in time (not
  the absent value) that is not earlier than the local one.
\<close>

definition decided :: "filepath \<Rightarrow> string \<Rightarrow> string \<times> time option \<Rightarrow> event list \<Rightarrow> bool" where
  "decided fp root f block =
     (\<exists>localTime looked.
        snd f = Some localTime
        \<and> lookups block = [(ToSlash fp (Rel fp root (fst f)), looked)]
        \<and> (uploads block = [] \<or> uploads block = [(fst f, ToSlash fp (Rel fp root (fst f)))])
        \<and> (well_formed localTime \<and> well_formed (fst looked) \<and> fst looked \<noteq> zero_time
             \<and> nanos localTime \<le> nanos (fst looked) \<longrightarrow> uploads block = []))"

section \<open>Example runs\<close>

text \<open>
  An FTP connection whose state is the list of the commands it was sent: \<open>MakeDir\<close>
  and \<open>Stor\<close> answer with the given errors, every listing is the given one.
\<close>

definition recording_conn ::
  "Entry list \<Rightarrow> error option \<Rightarrow> error option \<Rightarrow> string list ServerConn" where
  "recording_conn listing made stored =
     \<lparr> List = (\<lambda>dir c. (Inr listing, c @ [''LIST '' @ dir])),
       MakeDir = (\<lambda>p c. (made, c @ [''MKD '' @ p])),
       Stor = (\<lambda>p src c. (stored, c @ [''STOR '' @ p])),
       Quit = (\<lambda>c. (None, c @ [''QUIT''])) \<rparr>"

definition one_file :: entry where
  "one_file = Directory ''data'' None [File ''data/a.txt'' (Some (Instant 100 0))]"

definition two_files :: entry where
  "two_files = Directory ''data'' None
     [File ''data/a.txt'' (Some (Instant 100 0)), File ''data/b.txt'' (Some (Instant 100 0))]"

text \<open>A share mounted at a directory, and an operating system that refuses nothing.\<close>

definition mounted :: smbTarget where
  "mounted = \<lparr> drive = ''/mnt/z'', unc = ''//nas/share'', smb_prefix = ''backup'' \<rparr>"

definition obliging :: system where
  "obliging = \<lparr> Stat = (\<lambda>p. Inl (ErrNotExist ''stat: no such file'')), MkdirAll = (\<lambda>p. None),
      Create = (\<lambda>p. None), Copy = (\<lambda>p. None), Close_file = (\<lambda>p. None),
      Rename = (\<lambda>p q. None) \<rparr>"

definition old_share :: share where
  "old_share = [''/mnt/z/backup/a.txt'' \<mapsto> ''old'']"

section \<open>Time Comparator\<close>

lemma nanos_less_iff:
  assumes "well_formed t" and "well_formed u"
  shows "nanos u < nanos t \<longleftrightarrow> After t u"
proof -
  obtain a b where t: "t = Instant a b" by (cases t)
  obtain c d where u: "u = Instant c d" by (cases u)
  from assms have b: "b < 1000000000" and d: "d < 1000000000"
    by (simp_all add: well_formed_def t u)
  show ?thesis
    using b d by (auto simp: nanos_def After_def t u)
qed

lemma IsZero_iff: "IsZero t \<longleftrightarrow> t = zero_time"
  by (cases t) (simp add: IsZero_def zero_time_def)

text \<open>
  C3. For all pairs of timestamps the comparator of the code answers as the
  specification's comparator does: true exactly when the remote timestamp is the
  absent (zero) value or the local one is strictly after the remote one; two equal
  timestamps that are not absent give false.
\<close>

theorem newer_iff_absent_or_strictly_after:
  assumes "well_formed l" and "well_formed r"
  shows "(newer l r \<longleftrightarrow> isNewer_spec l r) \<and> (l = r \<and> r \<noteq> zero_time \<longrightarrow> \<not> newer l r)"
  using nanos_less_iff [OF assms]
  by (auto simp: newer_def isNewer_spec_def IsZero_iff After_def)

theorem newer_iff_absent_or_strictly_after_witness:
  "well_formed (Instant 100 5) \<and> well_formed (Instant 100 5)
   \<and> (newer (Instant 100 5) (Instant 100 5) \<longleftrightarrow> isNewer_spec (Instant 100 5) (Instant 100 5))
   \<and> \<not> newer (Instant 100 5) (Instant 100 5)
   \<and> newer (Instant 100 6) (Instant 100 5)
   \<and> newer (Instant 0 0) zero_time"
proof -
  have w: "well_formed (Instant 100 5)" by (simp add: well_formed_def)
  have z: "Instant 100 5 \<noteq> zero_time" by (simp add: zero_time_def)
  from newer_iff_absent_or_strictly_after [OF w w] z
  show ?thesis
    by (simp add: well_formed_def newer_def IsZero_def After_def zero_time_def)
qed

section \<open>Remote-Protocol Backend and Mounted-Share Backend\<close>

lemma make_chain_MakeDir_error:
  "make_chain fp (C\<lparr>MakeDir := \<lambda>p c. (e p c, snd (MakeDir C p c))\<rparr>) p dirs c
     = make_chain fp C p dirs c"
  by (induction dirs arbitrary: p c) (simp_all add: Let_def)

text \<open>
  C5, as the code has it. In both backends the result of creating the remote directory
  chain is dropped: whatever error \<open>MakeDir\<close> reports for each segment, and whatever
  \<open>os.MkdirAll\<close> reports, the upload returns the same error or success and leaves the
  same state. An upload returns an error only when opening the local file or the
  transfer fails: over FTP its result is the error of the open or else the result of
  \<open>Stor\<close>; on the mounted share its error is the first error among the open, the
  create, the copy and the rename, and none when these four succeed.
\<close>

theorem upload_error_from_open_or_transfer_only:
  "ftp_upload fp opn
       (t\<lparr>conn := (conn t)\<lparr>MakeDir := \<lambda>p c. (e p c, snd (MakeDir (conn t) p c))\<rparr>\<rparr>) local rel c
     = ftp_upload fp opn t local rel c
   \<and> smb_upload fp (sys\<lparr>MkdirAll := m\<rparr>) opn st local rel fs
     = smb_upload fp sys opn st local rel fs
   \<and> (opn local = Inl err \<longrightarrow> fst (ftp_upload fp opn t local rel c) = Some err)
   \<and> (opn local = Inr src \<longrightarrow>
        (\<exists>c1. ftp_upload fp opn t local rel c
                = Stor (conn t) (ToSlash fp (Join fp [ftp_prefix t, rel])) src c1))
   \<and> fst (smb_upload fp sys opn st local rel fs)
     = (case opn local of
          Inl err \<Rightarrow> Some err
        | Inr src \<Rightarrow>
            (case Create sys (toRemote fp st rel @ ''.tmp'') of
               Some err \<Rightarrow> Some err
             | None \<Rightarrow>
                 (case Copy sys (toRemote fp st rel @ ''.tmp'') of
                    Some (n, err) \<Rightarrow> Some err
                  | None \<Rightarrow> Rename sys (toRemote fp st rel @ ''.tmp'') (toRemote fp st rel))))"
proof (intro conjI impI)
  show "ftp_upload fp opn
       (t\<lparr>conn := (conn t)\<lparr>MakeDir := \<lambda>p c. (e p c, snd (MakeDir (conn t) p c))\<rparr>\<rparr>) local rel c
     = ftp_upload fp opn t local rel c"
    by (simp add: ftp_upload_def make_chain_MakeDir_error Let_def split: sum.splits)
  show "smb_upload fp (sys\<lparr>MkdirAll := m\<rparr>) opn st local rel fs
     = smb_upload fp sys opn st local rel fs"
    by (simp add: smb_upload_def closed_def Let_def split: sum.splits option.splits prod.splits)
  show "fst (ftp_upload fp opn t local rel c) = Some err" if "opn local = Inl err"
    using that by (simp add: ftp_upload_def Let_def)
  show "\<exists>c1. ftp_upload fp opn t local rel c
                = Stor (conn t) (ToSlash fp (Join fp [ftp_prefix t, rel])) src c1"
    if "opn local = Inr src"
    using that by (auto simp: ftp_upload_def Let_def)
  show "fst (smb_upload fp sys opn st local rel fs)
     = (case opn local of
          Inl err \<Rightarrow> Some err
        | Inr src \<Rightarrow>
            (case Create sys (toRemote fp st rel @ ''.tmp'') of
               Some err \<Rightarrow> Some err
             | None \<Rightarrow>
                 (case Copy sys (toRemote fp st rel @ ''.tmp'') of
                    Some (n, err) \<Rightarrow> Some err
                  | None \<Rightarrow> Rename sys (toRemote fp st rel @ ''.tmp'') (toRemote fp st rel))))"
    by (simp add: smb_upload_def Let_def split: sum.splits option.splits prod.splits)
qed

theorem upload_error_from_open_or_transfer_only_witness:
  "fst (ftp_upload unix_filepath (\<lambda>p. Inl (ErrOther ''open: permission denied''))
          \<lparr> conn = recording_conn [] (Some (ErrOther ''550 Permission denied'')) None,
            ftp_prefix = ''backup'' \<rparr>
          ''data/sub/c.txt'' ''sub/c.txt'' []) = Some (ErrOther ''open: permission denied'')
   \<and> ftp_upload unix_filepath (\<lambda>p. Inr ''hello'')
          \<lparr> conn = recording_conn [] (Some (ErrOther ''550 Permission denied''))
                     (Some (ErrOther ''552 Quota exceeded'')),
            ftp_prefix = ''backup'' \<rparr>
          ''data/sub/c.txt'' ''sub/c.txt'' []
       = (Some (ErrOther ''552 Quota exceeded''),
          [''MKD backup'', ''MKD backup/sub'', ''STOR backup/sub/c.txt''])"
proof -
  let ?t1 = "\<lparr> conn = recording_conn [] (Some (ErrOther ''550 Permission denied'')) None,
            ftp_prefix = ''backup'' \<rparr>"
  let ?t2 = "\<lparr> conn = recording_conn [] (Some (ErrOther ''550 Permission denied''))
                     (Some (ErrOther ''552 Quota exceeded'')),
            ftp_prefix = ''backup'' \<rparr>"
  have h1: "(\<lambda>p::string. Inl (ErrOther ''open: permission denied'') :: error + string) ''data/sub/c.txt''
              = Inl (ErrOther ''open: permission denied'')"
    by simp
  have h2: "(\<lambda>p::string. Inr ''hello'' :: error + string) ''data/sub/c.txt'' = Inr ''hello''"
    by simp
  have run: "ftp_upload unix_filepath (\<lambda>p. Inr ''hello'') ?t2 ''data/sub/c.txt'' ''sub/c.txt'' []
       = (Some (ErrOther ''552 Quota exceeded''),
          [''MKD backup'', ''MKD backup/sub'', ''STOR backup/sub/c.txt''])"
    by code_simp
  from upload_error_from_open_or_transfer_only
         [where fp = unix_filepath and opn = "\<lambda>p. Inl (ErrOther ''open: permission denied'')"
            and t = ?t1 and local = "''data/sub/c.txt''" and rel = "''sub/c.txt''" and c = "[]"
            and err = "ErrOther ''open: permission denied''"]
       upload_error_from_open_or_transfer_only
         [where fp = unix_filepath and opn = "\<lambda>p. Inr ''hello''"
            and t = ?t2 and local = "''data/sub/c.txt''" and rel = "''sub/c.txt''" and c = "[]"
            and src = "''hello''"]
       h1 h2 run
  show ?thesis by simp
qed

text \<open>
  C5 as stated fails: every \<open>MakeDir\<close> is refused with "permission denied", the
  transfer itself succeeds, and the upload returns no error.
\<close>

theorem permission_denied_mkdir_not_surfaced:
  "fst (ftp_upload unix_filepath (\<lambda>p. Inr ''hello'')
          \<lparr> conn = recording_conn [] (Some (ErrOther ''550 Permission denied'')) None,
            ftp_prefix = ''backup'' \<rparr>
          ''data/sub/c.txt'' ''sub/c.txt'' []) = None"
  by code_simp

text \<open>
  C6. On a Windows host the upload of \<open>sub/deep/c.txt\<close> under the prefix \<open>backup\<close>
  sends one \<open>MakeDir\<close>, for the path \<open>backup\sub\deep\<close> written with backslashes:
  \<open>filepath.Dir\<close> cleans the slash-separated path back to the host's separator, so
  the split at slashes finds one segment.
\<close>

theorem windows_mkdir_path_has_backslashes:
  "snd (ftp_upload windows_filepath (\<lambda>p. Inr ''hello'')
          \<lparr> conn = recording_conn [] None None, ftp_prefix = ''backup'' \<rparr>
          ''data/sub/deep/c.txt'' ''sub/deep/c.txt'' [])
     = [''MKD backup'' @ [CHR 0x5C] @ ''sub'' @ [CHR 0x5C] @ ''deep'',
        ''STOR backup/sub/deep/c.txt'']"
  by code_simp

text \<open>
  C7. The copy into the temporary file reports no error, the close of that file reports
  an error of writing after which the file holds two bytes of the five, and the rename
  succeeds: the upload returns no error and the destination path holds the truncated
  content. The result of \<open>out.Close()\<close> at line 135 is dropped and the rename of
  line 136 is made whatever it was.
\<close>

theorem close_error_leaves_truncated_destination:
  "fst (smb_upload fp
          (obliging\<lparr>Close_file := \<lambda>p. Some (2, ErrOther ''close: not enough space on the disk'')\<rparr>)
          (\<lambda>p. Inr ''hello'') t local rel fs) = None
   \<and> snd (smb_upload fp
          (obliging\<lparr>Close_file := \<lambda>p. Some (2, ErrOther ''close: not enough space on the disk'')\<rparr>)
          (\<lambda>p. Inr ''hello'') t local rel fs) (toRemote fp t rel) = Some ''he''"
  by (simp add: smb_upload_def closed_def obliging_def Let_def)

section \<open>Sync Driver\<close>

lemma scan_entries_error:
  "snd (scan_entries base entries) = Some y \<Longrightarrow> fst (scan_entries base entries) = zero_time"
  by (induction entries) (simp_all split: if_splits)

text \<open>
  C4. Both backends return the zero timestamp with every error of the lookup (a listing
  that fails, a name that is not listed, a stat that fails). The driver reads the
  timestamp only: after a lookup that failed, the step on a file prints its line and
  attempts the upload, and its result is the result of that upload alone.
\<close>

theorem lookup_failure_is_absent:
  "(snd (fst (ftp_mtime fp ft rel c)) \<noteq> None \<longrightarrow> fst (fst (ftp_mtime fp ft rel c)) = zero_time)
   \<and> (snd (fst (smb_mtime fp sys st rel fs)) \<noteq> None \<longrightarrow> fst (fst (smb_mtime fp sys st rel fs)) = zero_time)
   \<and> (getMTime B (ToSlash fp (Rel fp root path)) s = ((zero_time, Some e), s1) \<longrightarrow>
        visit fp B root path (Some localTime) (s, tr) =
          (case putFile B path (ToSlash fp (Rel fp root path)) s1 of
             (put, s2) \<Rightarrow>
               (case put of Some err \<Rightarrow> Failed err | None \<Rightarrow> NoError, s2,
                tr @ [Lookup (ToSlash fp (Rel fp root path)) (zero_time, Some e),
                      Stdout (progress_line (ToSlash fp (Rel fp root path))),
                      Upload path (ToSlash fp (Rel fp root path)) put])))"
proof (intro conjI impI)
  assume "snd (fst (ftp_mtime fp ft rel c)) \<noteq> None"
  then show "fst (fst (ftp_mtime fp ft rel c)) = zero_time"
    by (auto simp: ftp_mtime_def Let_def dest: scan_entries_error split: sum.splits prod.splits)
next
  assume "snd (fst (smb_mtime fp sys st rel fs)) \<noteq> None"
  then show "fst (fst (smb_mtime fp sys st rel fs)) = zero_time"
    by (auto simp: smb_mtime_def split: sum.splits)
next
  assume "getMTime B (ToSlash fp (Rel fp root path)) s = ((zero_time, Some e), s1)"
  moreover have "newer localTime zero_time"
    by (simp add: newer_def IsZero_def zero_time_def)
  ultimately show "visit fp B root path (Some localTime) (s, tr) =
          (case putFile B path (ToSlash fp (Rel fp root path)) s1 of
             (put, s2) \<Rightarrow>
               (case put of Some err \<Rightarrow> Failed err | None \<Rightarrow> NoError, s2,
                tr @ [Lookup (ToSlash fp (Rel fp root path)) (zero_time, Some e),
                      Stdout (progress_line (ToSlash fp (Rel fp root path))),
                      Upload path (ToSlash fp (Rel fp root path)) put]))"
    by (simp add: visit_def Let_def split: option.splits prod.splits)
qed


theorem lookup_failure_is_absent_witness:
  "snd (fst (ftp_mtime unix_filepath \<lparr> conn = recording_conn [] None None, ftp_prefix = ''backup'' \<rparr> ''a.txt'' [])) \<noteq> None
   \<and> fst (fst (ftp_mtime unix_filepath \<lparr> conn = recording_conn [] None None, ftp_prefix = ''backup'' \<rparr> ''a.txt'' [])) = zero_time
   \<and> snd (fst (smb_mtime unix_filepath obliging mounted ''a.txt'' old_share)) \<noteq> None
   \<and> fst (fst (smb_mtime unix_filepath obliging mounted ''a.txt'' old_share)) = zero_time
   \<and> visit unix_filepath
        (ftp_backend unix_filepath (\<lambda>p. Inr ''hello'') \<lparr> conn = recording_conn [] None None, ftp_prefix = ''backup'' \<rparr>)
        ''data'' ''data/a.txt'' (Some (Instant 100 0)) ([], [])
      = (NoError, [''LIST backup'', ''MKD backup'', ''STOR backup/a.txt''],
         [Lookup ''a.txt'' (zero_time, Some (ErrNotExist ''file does not exist'')),
          Stdout (progress_line ''a.txt''), Upload ''data/a.txt'' ''a.txt'' None])"
proof -
  let ?ft = "\<lparr> conn = recording_conn [] None None, ftp_prefix = ''backup'' \<rparr>"
  let ?B = "ftp_backend unix_filepath (\<lambda>p. Inr ''hello'') ?ft"
  have rel: "ToSlash unix_filepath (Rel unix_filepath ''data'' ''data/a.txt'') = ''a.txt''"
    by code_simp
  have h1: "snd (fst (ftp_mtime unix_filepath ?ft ''a.txt'' [])) \<noteq> None"
    by code_simp
  have h2: "snd (fst (smb_mtime unix_filepath obliging mounted ''a.txt'' old_share)) \<noteq> None"
    by (simp add: smb_mtime_def obliging_def split: sum.splits)
  have h3: "getMTime ?B (ToSlash unix_filepath (Rel unix_filepath ''data'' ''data/a.txt'')) []
     = ((zero_time, Some (ErrNotExist ''file does not exist'')), [''LIST backup''])"
    by code_simp
  have put: "putFile ?B ''data/a.txt'' ''a.txt'' [''LIST backup'']
     = (None, [''LIST backup'', ''MKD backup'', ''STOR backup/a.txt''])"
    by code_simp
  from lookup_failure_is_absent [of unix_filepath ?ft "''a.txt''" "[]" obliging mounted old_share ?B
         "''data''" "''data/a.txt''" "[]" "ErrNotExist ''file does not exist''" "[''LIST backup'']"
         "Instant 100 0" "[]"]
       h1 h2 h3 rel put
  show ?thesis by simp
qed

text \<open>
  C1. One file, and the server refuses to store it: the run ends with status 1 after
  \<open>log.Fatal\<close>, the close function was never called (no \<open>Close\<close> event) and the
  session never received \<open>QUIT\<close>.
\<close>

theorem fatal_upload_error_skips_close:
  "sync unix_filepath
     (ftp_backend unix_filepath (\<lambda>p. Inr ''hello'')
        \<lparr> conn = recording_conn [] None (Some (ErrOther ''550 Permission denied'')),
          ftp_prefix = ''backup'' \<rparr>)
     ''data'' (Inr one_file) []
   = (1, [''LIST backup'', ''MKD backup'', ''STOR backup/a.txt''],
      [Lookup ''a.txt'' (zero_time, Some (ErrNotExist ''file does not exist'')),
       Stdout (progress_line ''a.txt''),
       Upload ''data/a.txt'' ''a.txt'' (Some (ErrOther ''550 Permission denied'')),
       Fatal (ErrOther ''550 Permission denied'')])"
  by code_simp

text \<open>
  C10. The step on a visited file panics exactly when the local stat fails: the error
  of the stat is not looked at, the remote lookup is still made, and reading the
  modification time of the missing file info ends the step without a result or an
  error.
\<close>

theorem visit_panics_iff_stat_fails:
  "(fst (visit fp B root path localInfo (s, tr)) = Panicked) = (localInfo = None)
   \<and> visit fp B root path None (s, tr) =
       (Panicked, snd (getMTime B (ToSlash fp (Rel fp root path)) s),
        tr @ [Lookup (ToSlash fp (Rel fp root path))
                (fst (getMTime B (ToSlash fp (Rel fp root path)) s))])"
  by (simp add: visit_def Let_def split: prod.splits option.splits)

lemma visit_events:
  assumes "visit fp B root path info (s, tr) = (r, s', tr')"
  shows "\<exists>looked. tr' = tr @ [Lookup (ToSlash fp (Rel fp root path)) looked] \<and> (r = Panicked \<or> r = NoError)
        \<or> (\<exists>put. tr' = tr @ [Lookup (ToSlash fp (Rel fp root path)) looked,
                        Stdout (progress_line (ToSlash fp (Rel fp root path))),
                        Upload path (ToSlash fp (Rel fp root path)) put]
              \<and> r = (case put of Some err \<Rightarrow> Failed err | None \<Rightarrow> NoError))"
  using assms
  by (auto simp: visit_def Let_def split: prod.splits option.splits if_splits)

lemma walk_events:
  fixes Q :: "result \<Rightarrow> event list \<Rightarrow> bool"
  assumes step: "\<And>path info s tr r s' tr'. visit fp B root path info (s, tr) = (r, s', tr')
                   \<Longrightarrow> \<exists>new. tr' = tr @ new \<and> Q r new"
      and nil: "Q NoError []"
      and err: "\<And>e. Q (Failed e) []"
      and seq: "\<And>n1 r n2. Q NoError n1 \<Longrightarrow> Q r n2 \<Longrightarrow> Q r (n1 @ n2)"
  shows "walkDir (callback fp B root) d w = (r, w') \<Longrightarrow> \<exists>new. snd w' = snd w @ new \<and> Q r new"
    and "walkEntries (callback fp B root) ds w = (r, w') \<Longrightarrow> \<exists>new. snd w' = snd w @ new \<and> Q r new"
proof (induction "callback fp B root" d w and "callback fp B root" ds w
       arbitrary: r w' and r w' rule: walkDir_walkEntries.induct)
  case (1 p info w)
  obtain s tr where w: "w = (s, tr)" by (cases w)
  obtain s' tr' where w': "w' = (s', tr')" by (cases w')
  from "1.prems" have "visit fp B root p info (s, tr) = (r, s', tr')"
    by (simp add: callback_def w w')
  from step [OF this] show ?case by (simp add: w w')
next
  case (2 p rerr ents w)
  have first: "callback fp B root p (Some (Directory p rerr ents)) None w = (NoError, w)"
    by (simp add: callback_def)
  show ?case
  proof (cases rerr)
    case None
    with "2.prems" first have "walkEntries (callback fp B root) ents w = (r, w')"
      by simp
    with "2.hyps"(1) [OF first [symmetric] refl None] show ?thesis .
  next
    case (Some e)
    have "callback fp B root p (Some (Directory p rerr ents)) (Some e) w = (Failed e, w)"
      by (simp add: callback_def)
    with "2.prems" first Some have "r = Failed e" "w' = w" by simp_all
    with err show ?thesis by simp
  qed
next
  case (3 w)
  with nil show ?case by simp
next
  case (4 d ds w)
  obtain r1 w1 where d: "walkDir (callback fp B root) d w = (r1, w1)"
    by (cases "walkDir (callback fp B root) d w")
  from "4.hyps"(1) [OF d] obtain n1 where n1: "snd w1 = snd w @ n1" "Q r1 n1" by blast
  show ?case
  proof (cases r1)
    case NoError
    with "4.prems" d have rest: "walkEntries (callback fp B root) ds w1 = (r, w')" by simp
    from "4.hyps"(2) [OF d [symmetric] NoError rest] obtain n2 where "snd w' = snd w1 @ n2" "Q r n2"
      by blast
    with n1 NoError seq [of n1 r n2] show ?thesis by auto
  next
    case (Failed e)
    with "4.prems" d have "r = r1" "w' = w1" by simp_all
    with n1 show ?thesis by blast
  next
    case Panicked
    with "4.prems" d have "r = r1" "w' = w1" by simp_all
    with n1 show ?thesis by blast
  qed
qed


lemma WalkDir_events:
  fixes Q :: "result \<Rightarrow> event list \<Rightarrow> bool"
  assumes step: "\<And>path info s tr r s' tr'. visit fp B root path info (s, tr) = (r, s', tr')
                   \<Longrightarrow> \<exists>new. tr' = tr @ new \<and> Q r new"
      and nil: "Q NoError []"
      and err: "\<And>e. Q (Failed e) []"
      and seq: "\<And>n1 r n2. Q NoError n1 \<Longrightarrow> Q r n2 \<Longrightarrow> Q r (n1 @ n2)"
      and walk: "WalkDir root lstat (callback fp B root) (s, []) = (r, s', tr)"
  shows "Q r tr"
proof (cases lstat)
  case (Inl e)
  with walk have "r = Failed e" "tr = []"
    by (simp_all add: WalkDir_def callback_def)
  with err show ?thesis by simp
next
  case (Inr d)
  with walk have "walkDir (callback fp B root) d (s, []) = (r, s', tr)"
    by (simp add: WalkDir_def)
  from walk_events(1) [of fp B root Q, OF step nil err seq this] show ?thesis
    by simp
qed

lemma stops_at_failure_visit:
  assumes "visit fp B root path info (s, tr) = (r, s', tr')"
  shows "\<exists>new. tr' = tr @ new \<and> stops_at_failure r new"
proof -
  from visit_events [OF assms] obtain looked where
    "tr' = tr @ [Lookup (ToSlash fp (Rel fp root path)) looked] \<and> (r = Panicked \<or> r = NoError)
        \<or> (\<exists>put. tr' = tr @ [Lookup (ToSlash fp (Rel fp root path)) looked,
                        Stdout (progress_line (ToSlash fp (Rel fp root path))),
                        Upload path (ToSlash fp (Rel fp root path)) put]
              \<and> r = (case put of Some err \<Rightarrow> Failed err | None \<Rightarrow> NoError))"
    by blast
  then show ?thesis
  proof
    assume "tr' = tr @ [Lookup (ToSlash fp (Rel fp root path)) looked] \<and> (r = Panicked \<or> r = NoError)"
    then show ?thesis by (auto simp: stops_at_failure_def)
  next
    assume "\<exists>put. tr' = tr @ [Lookup (ToSlash fp (Rel fp root path)) looked,
                        Stdout (progress_line (ToSlash fp (Rel fp root path))),
                        Upload path (ToSlash fp (Rel fp root path)) put]
              \<and> r = (case put of Some err \<Rightarrow> Failed err | None \<Rightarrow> NoError)"
    then obtain put where put: "tr' = tr @ [Lookup (ToSlash fp (Rel fp root path)) looked,
                        Stdout (progress_line (ToSlash fp (Rel fp root path))),
                        Upload path (ToSlash fp (Rel fp root path)) put]"
        "r = (case put of Some err \<Rightarrow> Failed err | None \<Rightarrow> NoError)" by blast
    show ?thesis
    proof (cases put)
      case None
      with put show ?thesis by (auto simp: stops_at_failure_def)
    next
      case (Some e)
      let ?pre = "[Lookup (ToSlash fp (Rel fp root path)) looked,
                        Stdout (progress_line (ToSlash fp (Rel fp root path)))]"
      from put Some have "tr' = tr @ (?pre @ [Upload path (ToSlash fp (Rel fp root path)) (Some e)])"
        "r = Failed e" "\<forall>ev \<in> set ?pre. \<not> failed_upload ev" by simp_all
      then show ?thesis unfolding stops_at_failure_def by blast
    qed
  qed
qed

lemma stops_at_failure_seq:
  assumes "stops_at_failure NoError n1" and "stops_at_failure r n2"
  shows "stops_at_failure r (n1 @ n2)"
proof -
  from assms(1) have n1: "\<forall>ev \<in> set n1. \<not> failed_upload ev"
    by (simp add: stops_at_failure_def)
  from assms(2) show ?thesis
    unfolding stops_at_failure_def
  proof
    assume "\<forall>ev \<in> set n2. \<not> failed_upload ev"
    with n1 show "(\<forall>ev \<in> set (n1 @ n2). \<not> failed_upload ev)
      \<or> (\<exists>pre p rel e. r = Failed e \<and> n1 @ n2 = pre @ [Upload p rel (Some e)]
            \<and> (\<forall>ev \<in> set pre. \<not> failed_upload ev))" by auto
  next
    assume "\<exists>pre p rel e. r = Failed e \<and> n2 = pre @ [Upload p rel (Some e)]
            \<and> (\<forall>ev \<in> set pre. \<not> failed_upload ev)"
    then obtain pre p rel e where "r = Failed e" "n2 = pre @ [Upload p rel (Some e)]"
       "\<forall>ev \<in> set pre. \<not> failed_upload ev" by blast
    with n1 have "r = Failed e \<and> n1 @ n2 = (n1 @ pre) @ [Upload p rel (Some e)]
            \<and> (\<forall>ev \<in> set (n1 @ pre). \<not> failed_upload ev)" by auto
    then show "(\<forall>ev \<in> set (n1 @ n2). \<not> failed_upload ev)
      \<or> (\<exists>pre p rel e. r = Failed e \<and> n1 @ n2 = pre @ [Upload p rel (Some e)]
            \<and> (\<forall>ev \<in> set pre. \<not> failed_upload ev))" by blast
  qed
qed

lemma WalkDir_stops_at_failure:
  assumes "WalkDir root lstat (callback fp B root) (s, []) = (r, s', tr)"
  shows "stops_at_failure r tr"
proof (rule WalkDir_events [of fp B root stops_at_failure, OF _ _ _ _ assms])
  show "\<And>path info s tr r s' tr'. visit fp B root path info (s, tr) = (r, s', tr')
          \<Longrightarrow> \<exists>new. tr' = tr @ new \<and> stops_at_failure r new"
    by (rule stops_at_failure_visit)
  show "stops_at_failure NoError []"
    by (simp add: stops_at_failure_def)
  show "\<And>e. stops_at_failure (Failed e) []"
    by (simp add: stops_at_failure_def)
  show "\<And>n1 r n2. stops_at_failure NoError n1 \<Longrightarrow> stops_at_failure r n2
          \<Longrightarrow> stops_at_failure r (n1 @ n2)"
    by (rule stops_at_failure_seq)
qed

text \<open>
  C2, as the code has it. When an upload returns an error the walk stops there: the
  failed upload is the last call of the run, and no upload failed before it. What
  follows depends on the error. If it is not a "does not exist" error the run ends
  with \<open>log.Fatal\<close> and status 1; if it is one, the run prints its completion line,
  closes the session and ends with status 0.
\<close>

theorem upload_error_ends_walk:
  assumes run: "sync fp B root lstat s = (status, s', tr)"
      and up: "Upload p rel (Some e) \<in> set tr"
  shows "\<exists>pre. (\<forall>ev \<in> set pre. \<not> failed_upload ev) \<and>
           (if is_not_exist e
            then status = 0 \<and> tr = pre @ [Upload p rel (Some e), Stdout complete_line, Close]
            else status = 1 \<and> tr = pre @ [Upload p rel (Some e), Fatal e])"
proof -
  obtain r s1 trw where walk: "WalkDir root lstat (callback fp B root) (s, []) = (r, s1, trw)"
    by (cases "WalkDir root lstat (callback fp B root) (s, [])") auto
  from WalkDir_stops_at_failure [OF walk] have st: "stops_at_failure r trw" .
  from run walk obtain fin where fin: "tr = trw @ fin" "\<forall>ev \<in> set fin. \<not> failed_upload ev"
    by (auto simp: sync_def split: result.splits if_splits)
  have "failed_upload (Upload p rel (Some e))" by simp
  with fin(2) have "Upload p rel (Some e) \<notin> set fin" by blast
  with up fin(1) have "Upload p rel (Some e) \<in> set trw" by simp
  with st obtain pre p' rel' e' where pre: "r = Failed e'" "trw = pre @ [Upload p' rel' (Some e')]"
     "\<forall>ev \<in> set pre. \<not> failed_upload ev"
    unfolding stops_at_failure_def by fastforce
  with \<open>Upload p rel (Some e) \<in> set trw\<close> have same: "p' = p" "rel' = rel" "e' = e"
    by auto
  from run walk pre same show ?thesis
    by (auto simp: sync_def split: if_splits)
qed

theorem upload_error_ends_walk_witness:
  "sync unix_filepath
     (ftp_backend unix_filepath (\<lambda>p. Inr ''hello'')
        \<lparr> conn = recording_conn [] None (Some (ErrOther ''552 Quota exceeded'')), ftp_prefix = ''backup'' \<rparr>)
     ''data'' (Inr two_files) []
   = (1, [''LIST backup'', ''MKD backup'', ''STOR backup/a.txt''],
      [Lookup ''a.txt'' (zero_time, Some (ErrNotExist ''file does not exist'')),
       Stdout (progress_line ''a.txt'')] @
      [Upload ''data/a.txt'' ''a.txt'' (Some (ErrOther ''552 Quota exceeded'')),
       Fatal (ErrOther ''552 Quota exceeded'')])"
proof -
  let ?B = "ftp_backend unix_filepath (\<lambda>p. Inr ''hello'')
        \<lparr> conn = recording_conn [] None (Some (ErrOther ''552 Quota exceeded'')), ftp_prefix = ''backup'' \<rparr>"
  let ?tr = "[Lookup ''a.txt'' (zero_time, Some (ErrNotExist ''file does not exist'')),
       Stdout (progress_line ''a.txt''),
       Upload ''data/a.txt'' ''a.txt'' (Some (ErrOther ''552 Quota exceeded'')),
       Fatal (ErrOther ''552 Quota exceeded'')]"
  have run: "sync unix_filepath ?B ''data'' (Inr two_files) []
     = (1, [''LIST backup'', ''MKD backup'', ''STOR backup/a.txt''], ?tr)"
    by code_simp
  have up: "Upload ''data/a.txt'' ''a.txt'' (Some (ErrOther ''552 Quota exceeded'')) \<in> set ?tr"
    by simp
  from upload_error_ends_walk [OF run up] run show ?thesis by simp
qed

text \<open>
  C2 as stated fails. Two files; opening the first for the upload fails because it is
  gone. The upload returns that "does not exist" error, the walk stops before the
  second file, and the run prints its completion line, closes the session and ends with
  status 0.
\<close>

theorem not_exist_upload_error_reported_as_success:
  "sync unix_filepath
     (ftp_backend unix_filepath (\<lambda>p. Inl (ErrNotExist ''open: no such file or directory''))
        \<lparr> conn = recording_conn [] None None, ftp_prefix = ''backup'' \<rparr>)
     ''data'' (Inr two_files) []
   = (0, [''LIST backup'', ''MKD backup'', ''QUIT''],
      [Lookup ''a.txt'' (zero_time, Some (ErrNotExist ''file does not exist'')),
       Stdout (progress_line ''a.txt''),
       Upload ''data/a.txt'' ''a.txt'' (Some (ErrNotExist ''open: no such file or directory'')),
       Stdout complete_line, Close])"
  by code_simp

lemma paired_append: "paired a \<Longrightarrow> paired b \<Longrightarrow> paired (a @ b)"
  by (induction a rule: paired.induct) simp_all

lemma progress_not_complete: "complete_line \<noteq> progress_line rel"
  by (simp add: progress_line_def complete_line_def)

lemma paired_no_complete: "paired evs \<Longrightarrow> Stdout complete_line \<notin> set evs"
  by (induction evs rule: paired.induct) (auto simp: progress_not_complete)

lemma WalkDir_paired:
  assumes "WalkDir root lstat (callback fp B root) (s, []) = (r, s', tr)"
  shows "paired tr"
proof (rule WalkDir_events [of fp B root "\<lambda>r new. paired new", OF _ _ _ _ assms])
  show "\<And>path info s tr r s' tr'. visit fp B root path info (s, tr) = (r, s', tr')
          \<Longrightarrow> \<exists>new. tr' = tr @ new \<and> paired new"
    by (drule visit_events) auto
  show "paired []" by simp
  show "\<And>e. paired []" by simp
  show "\<And>n1 r n2. paired n1 \<Longrightarrow> paired n2 \<Longrightarrow> paired (n1 @ n2)"
    by (rule paired_append)
qed

text \<open>
  C9, as the code has it. In every run each upload attempt stands directly after one
  printed line, the progress line of its relative path (an upwards arrow, a space, the
  path), and nothing else is printed during the walk; a run that ends with status 0
  ends with the completion line and the close, and the completion line is printed once
  in such a run and never in another. A file that the comparator judges newer gets its
  lookup, its progress line and its upload attempt, in this order.
\<close>

theorem progress_line_before_each_upload:
  "(sync fp B root lstat s = (status, s', tr) \<longrightarrow>
      (\<exists>walk fin. tr = walk @ fin \<and> paired walk
         \<and> (if status = 0 then fin = [Stdout complete_line, Close]
             else fin = [Close] \<or> (\<exists>e. fin = [Fatal e])))
      \<and> count_list tr (Stdout complete_line) = (if status = 0 then 1 else 0))
   \<and> (newer localTime (fst (fst (getMTime B (ToSlash fp (Rel fp root path)) s0))) \<longrightarrow>
        (\<exists>looked put. snd (snd (visit fp B root path (Some localTime) (s0, tr0)))
           = tr0 @ [Lookup (ToSlash fp (Rel fp root path)) looked,
                    Stdout (progress_line (ToSlash fp (Rel fp root path))),
                    Upload path (ToSlash fp (Rel fp root path)) put]))"
proof (intro conjI impI)
  assume run: "sync fp B root lstat s = (status, s', tr)"
  obtain r s1 trw where walk: "WalkDir root lstat (callback fp B root) (s, []) = (r, s1, trw)"
    by (cases "WalkDir root lstat (callback fp B root) (s, [])") auto
  from WalkDir_paired [OF walk] have p: "paired trw" .
  from paired_no_complete [OF p] have n: "count_list trw (Stdout complete_line) = 0"
    by simp
  from run walk obtain fin where fin: "tr = trw @ fin"
      "if status = 0 then fin = [Stdout complete_line, Close]
             else fin = [Close] \<or> (\<exists>e. fin = [Fatal e])"
    by (auto simp: sync_def split: result.splits if_splits)
  with p show "\<exists>walk fin. tr = walk @ fin \<and> paired walk
         \<and> (if status = 0 then fin = [Stdout complete_line, Close]
             else fin = [Close] \<or> (\<exists>e. fin = [Fatal e]))" by blast
  from fin n show "count_list tr (Stdout complete_line) = (if status = 0 then 1 else 0)"
    by (auto split: if_splits)
next
  assume "newer localTime (fst (fst (getMTime B (ToSlash fp (Rel fp root path)) s0)))"
  then show "\<exists>looked put. snd (snd (visit fp B root path (Some localTime) (s0, tr0)))
           = tr0 @ [Lookup (ToSlash fp (Rel fp root path)) looked,
                    Stdout (progress_line (ToSlash fp (Rel fp root path))),
                    Upload path (ToSlash fp (Rel fp root path)) put]"
    by (auto simp: visit_def Let_def split: prod.splits option.splits)
qed

theorem progress_line_before_each_upload_witness:
  "sync unix_filepath
     (ftp_backend unix_filepath (\<lambda>p. Inr ''hello'')
        \<lparr> conn = recording_conn [Entry ''b.txt'' (Instant 200 0)] None None, ftp_prefix = ''backup'' \<rparr>)
     ''data'' (Inr two_files) []
   = (0, [''LIST backup'', ''MKD backup'', ''STOR backup/a.txt'', ''LIST backup'', ''QUIT''],
      [Lookup ''a.txt'' (zero_time, Some (ErrNotExist ''file does not exist'')),
       Stdout (progress_line ''a.txt''), Upload ''data/a.txt'' ''a.txt'' None,
       Lookup ''b.txt'' (Instant 200 0, None),
       Stdout complete_line, Close])
   \<and> newer (Instant 100 0) (fst (fst (getMTime
        (ftp_backend unix_filepath (\<lambda>p. Inr ''hello'')
          \<lparr> conn = recording_conn [Entry ''b.txt'' (Instant 200 0)] None None, ftp_prefix = ''backup'' \<rparr>)
        (ToSlash unix_filepath (Rel unix_filepath ''data'' ''data/a.txt'')) [])))
   \<and> count_list
        [Lookup ''a.txt'' (zero_time, Some (ErrNotExist ''file does not exist'')),
         Stdout (progress_line ''a.txt''), Upload ''data/a.txt'' ''a.txt'' None,
         Lookup ''b.txt'' (Instant 200 0, None),
         Stdout complete_line, Close] (Stdout complete_line) = 1"
proof -
  let ?B = "ftp_backend unix_filepath (\<lambda>p. Inr ''hello'')
        \<lparr> conn = recording_conn [Entry ''b.txt'' (Instant 200 0)] None None, ftp_prefix = ''backup'' \<rparr>"
  let ?tr = "[Lookup ''a.txt'' (zero_time, Some (ErrNotExist ''file does not exist'')),
       Stdout (progress_line ''a.txt''), Upload ''data/a.txt'' ''a.txt'' None,
       Lookup ''b.txt'' (Instant 200 0, None),
       Stdout complete_line, Close]"
  have run: "sync unix_filepath ?B ''data'' (Inr two_files) []
     = (0, [''LIST backup'', ''MKD backup'', ''STOR backup/a.txt'', ''LIST backup'', ''QUIT''], ?tr)"
    by code_simp
  have judged: "newer (Instant 100 0) (fst (fst (getMTime ?B
        (ToSlash unix_filepath (Rel unix_filepath ''data'' ''data/a.txt'')) [])))"
    by code_simp
  from progress_line_before_each_upload [of unix_filepath ?B "''data''" "Inr two_files" "[]" 0
      "[''LIST backup'', ''MKD backup'', ''STOR backup/a.txt'', ''LIST backup'', ''QUIT'']" ?tr
      "Instant 100 0" "''data/a.txt''" "[]" "[]"] run judged
  show ?thesis by simp
qed

text \<open>
  C9 as stated fails. One file is uploaded; the run prints two lines, the arrow line
  of the file and the completion line, and no line \<open>uploaded: a.txt\<close>.
\<close>

theorem progress_line_is_not_uploaded_colon:
  "stdout_of (snd (snd (sync unix_filepath
       (ftp_backend unix_filepath (\<lambda>p. Inr ''hello'')
          \<lparr> conn = recording_conn [] None None, ftp_prefix = ''backup'' \<rparr>)
       ''data'' (Inr one_file) [])))
     = [[CHR 0xE2, CHR 0x86, CHR 0x91] @ '' a.txt'' @ [CHR 0x0A],
        [CHR 0xE2, CHR 0x9C, CHR 0x93] @ '' Sync complete'' @ [CHR 0x0A]]
   \<and> uploads (snd (snd (sync unix_filepath
       (ftp_backend unix_filepath (\<lambda>p. Inr ''hello'')
          \<lparr> conn = recording_conn [] None None, ftp_prefix = ''backup'' \<rparr>)
       ''data'' (Inr one_file) []))) = [(''data/a.txt'', ''a.txt'')]
   \<and> ''uploaded: a.txt'' @ [CHR 0x0A] \<notin> set (stdout_of (snd (snd (sync unix_filepath
       (ftp_backend unix_filepath (\<lambda>p. Inr ''hello'')
          \<lparr> conn = recording_conn [] None None, ftp_prefix = ''backup'' \<rparr>)
       ''data'' (Inr one_file) []))))"
  by code_simp

lemma not_newer:
  assumes "well_formed l" "well_formed r" "r \<noteq> zero_time" "nanos l \<le> nanos r"
  shows "\<not> newer l r"
  using assms nanos_less_iff [of l r] by (auto simp: newer_def IsZero_iff)

lemma visit_decided:
  assumes "visit fp B root path info (s, tr) = (NoError, s', tr')"
  shows "\<exists>block. tr' = tr @ block \<and> decided fp root (path, info) block"
proof (cases info)
  case None
  with assms show ?thesis
    by (simp add: visit_def Let_def split: prod.splits)
next
  case (Some lt)
  obtain looked s1 where look: "getMTime B (ToSlash fp (Rel fp root path)) s = (looked, s1)"
    by (cases "getMTime B (ToSlash fp (Rel fp root path)) s")
  show ?thesis
  proof (cases "newer lt (fst looked)")
    case True
    with assms Some look have "tr' = tr @ [Lookup (ToSlash fp (Rel fp root path)) looked,
                        Stdout (progress_line (ToSlash fp (Rel fp root path))),
                        Upload path (ToSlash fp (Rel fp root path)) None]"
      by (auto simp: visit_def Let_def split: prod.splits option.splits)
    moreover have "decided fp root (path, info) [Lookup (ToSlash fp (Rel fp root path)) looked,
                        Stdout (progress_line (ToSlash fp (Rel fp root path))),
                        Upload path (ToSlash fp (Rel fp root path)) None]"
      using True Some not_newer [of lt "fst looked"] by (auto simp: decided_def)
    ultimately show ?thesis by blast
  next
    case False
    with assms Some look have "tr' = tr @ [Lookup (ToSlash fp (Rel fp root path)) looked]"
      by (auto simp: visit_def Let_def split: prod.splits option.splits)
    moreover have "decided fp root (path, info) [Lookup (ToSlash fp (Rel fp root path)) looked]"
      using Some by (simp add: decided_def)
    ultimately show ?thesis by blast
  qed
qed

lemma completed_walk:
  shows "walkDir (callback fp B root) d w = (NoError, w')
           \<Longrightarrow> \<exists>blocks. snd w' = snd w @ concat blocks \<and> list_all2 (decided fp root) (files_of d) blocks"
    and "walkEntries (callback fp B root) ds w = (NoError, w')
           \<Longrightarrow> \<exists>blocks. snd w' = snd w @ concat blocks \<and> list_all2 (decided fp root) (files_in ds) blocks"
proof (induction "callback fp B root" d w and "callback fp B root" ds w
       arbitrary: w' and w' rule: walkDir_walkEntries.induct)
  case (1 p info w)
  obtain s tr where w: "w = (s, tr)" by (cases w)
  obtain s' tr' where w': "w' = (s', tr')" by (cases w')
  from "1.prems" have "visit fp B root p info (s, tr) = (NoError, s', tr')"
    by (simp add: callback_def w w')
  from visit_decided [OF this] obtain block where "tr' = tr @ block" "decided fp root (p, info) block"
    by blast
  then have "snd w' = snd w @ concat [block] \<and> list_all2 (decided fp root) (files_of (File p info)) [block]"
    by (simp add: w w')
  then show ?case by blast
next
  case (2 p rerr ents w)
  have first: "callback fp B root p (Some (Directory p rerr ents)) None w = (NoError, w)"
    by (simp add: callback_def)
  show ?case
  proof (cases rerr)
    case None
    with "2.prems" first have "walkEntries (callback fp B root) ents w = (NoError, w')"
      by simp
    from "2.hyps"(1) [OF first [symmetric] refl None this] show ?thesis by simp
  next
    case (Some e)
    have "callback fp B root p (Some (Directory p rerr ents)) (Some e) w = (Failed e, w)"
      by (simp add: callback_def)
    with "2.prems" first Some show ?thesis by simp
  qed
next
  case (3 w)
  then have "snd w' = snd w @ concat [] \<and> list_all2 (decided fp root) (files_in []) []" by simp
  then show ?case by blast
next
  case (4 d ds w)
  obtain r1 w1 where d: "walkDir (callback fp B root) d w = (r1, w1)"
    by (cases "walkDir (callback fp B root) d w")
  with "4.prems" have r1: "r1 = NoError"
    by (cases r1) simp_all
  with "4.prems" d have rest: "walkEntries (callback fp B root) ds w1 = (NoError, w')" by simp
  from "4.hyps"(1) [of w1] d r1 obtain b1 where b1: "snd w1 = snd w @ concat b1"
      "list_all2 (decided fp root) (files_of d) b1" by blast
  from "4.hyps"(2) [OF d [symmetric] r1 rest] obtain b2 where b2: "snd w' = snd w1 @ concat b2"
      "list_all2 (decided fp root) (files_in ds) b2" by blast
  from b1 b2 have "snd w' = snd w @ concat (b1 @ b2)
       \<and> list_all2 (decided fp root) (files_in (d # ds)) (b1 @ b2)"
    by (simp add: list_all2_appendI)
  then show ?case by blast
qed

text \<open>
  C8. When the walk of a tree completes, its events are one block per file of the tree,
  in the order of the walk, and each block holds exactly one lookup, for that file, at
  most one upload, of that file, and no upload when the remote timestamp is a point in
  time not earlier than the local one.
\<close>

theorem one_lookup_at_most_one_upload_per_file:
  assumes "WalkDir root (Inr d) (callback fp B root) (s, []) = (NoError, s', tr)"
  shows "\<exists>blocks. tr = concat blocks \<and> list_all2 (decided fp root) (files_of d) blocks"
proof -
  from assms have "walkDir (callback fp B root) d (s, []) = (NoError, s', tr)"
    by (simp add: WalkDir_def)
  from completed_walk(1) [OF this] show ?thesis by simp
qed

theorem one_lookup_at_most_one_upload_per_file_witness:
  "WalkDir ''data'' (Inr two_files)
     (callback unix_filepath
        (ftp_backend unix_filepath (\<lambda>p. Inr ''hello'')
           \<lparr> conn = recording_conn [Entry ''b.txt'' (Instant 200 0)] None None, ftp_prefix = ''backup'' \<rparr>)
        ''data'') ([], [])
   = (NoError, [''LIST backup'', ''MKD backup'', ''STOR backup/a.txt'', ''LIST backup''],
      [Lookup ''a.txt'' (zero_time, Some (ErrNotExist ''file does not exist'')),
       Stdout (progress_line ''a.txt''), Upload ''data/a.txt'' ''a.txt'' None,
       Lookup ''b.txt'' (Instant 200 0, None)])
   \<and> (\<exists>blocks.
        [Lookup ''a.txt'' (zero_time, Some (ErrNotExist ''file does not exist'')),
         Stdout (progress_line ''a.txt''), Upload ''data/a.txt'' ''a.txt'' None,
         Lookup ''b.txt'' (Instant 200 0, None)] = concat blocks
        \<and> list_all2 (decided unix_filepath ''data'') (files_of two_files) blocks)
   \<and> well_formed (Instant 100 0) \<and> well_formed (Instant 200 0) \<and> Instant 200 0 \<noteq> zero_time
   \<and> nanos (Instant 100 0) \<le> nanos (Instant 200 0)"
proof -
  let ?B = "ftp_backend unix_filepath (\<lambda>p. Inr ''hello'')
           \<lparr> conn = recording_conn [Entry ''b.txt'' (Instant 200 0)] None None, ftp_prefix = ''backup'' \<rparr>"
  have run: "WalkDir ''data'' (Inr two_files) (callback unix_filepath ?B ''data'') ([], [])
   = (NoError, [''LIST backup'', ''MKD backup'', ''STOR backup/a.txt'', ''LIST backup''],
      [Lookup ''a.txt'' (zero_time, Some (ErrNotExist ''file does not exist'')),
       Stdout (progress_line ''a.txt''), Upload ''data/a.txt'' ''a.txt'' None,
       Lookup ''b.txt'' (Instant 200 0, None)])"
    by code_simp
  have times: "well_formed (Instant 100 0) \<and> well_formed (Instant 200 0) \<and> Instant 200 0 \<noteq> zero_time
   \<and> nanos (Instant 100 0) \<le> nanos (Instant 200 0)"
    by (simp add: well_formed_def zero_time_def nanos_def)
  from one_lookup_at_most_one_upload_per_file [OF run] run times show ?thesis by simp
qed

end
